theory Spec2Isabelle
  imports Main
begin

section \<open>Valuation matrices (src/valuations.py)\<close>

text \<open>
  A valuation matrix wraps a numpy array: row \<open>i\<close> holds the values of agent \<open>i\<close>,
  column \<open>j\<close> belongs to object \<open>j\<close>. The matrices of this development are those of
  numpy's integer dtype, int64, the dtype of an array built from lists of Python
  integers: an entry is an integer between \<open>-2^63\<close> and \<open>2^63 - 1\<close>, and the arithmetic of
  numpy on such entries wraps around modulo \<open>2^64\<close>. Matrices of the floating dtype, and
  with them the branch of \<open>normalize\<close> for that dtype (lines 138-139), are not part of
  this development. The array built from the empty list has no entry, and nothing said
  of it here depends on its dtype.

  An array is its shape together with its rows. The shape matters when there is no row:
  \<^verbatim>\<open>np.array([])\<close> is one-dimensional, of shape \<open>(0,)\<close>, while a two-dimensional array
  that lost its rows keeps its number of columns, shape \<open>(0, k)\<close>.
\<close>

type_synonym table = "int list list"

record ndarray =
  nd_shape :: "nat list"
  nd_rows :: table

text \<open>
  The exceptions of the modelled code, as values.
  \<^item> \<open>NotOrdered i row\<close>: \<^verbatim>\<open>ValueError(f"Valuations of agent {i} are not ordered: {v_i}")\<close>
  \<^item> \<open>CountMismatch n k\<close>: \<^verbatim>\<open>ValueError(f"Number of valuations {n} differs from number of thresholds {k}")\<close>
  \<^item> \<open>NotNormalized\<close>: \<^verbatim>\<open>ValueError("Valuation matrix is not normalized")\<close>
  \<^item> \<open>IndexError\<close>: numpy's IndexError, an index outside the array or too many indices
  \<^item> \<open>AxisError\<close>: numpy's AxisError, axis 1 of a one-dimensional array
  \<^item> \<open>EmptyReduction\<close>: numpy's ValueError of \<^verbatim>\<open>np.lcm.reduce\<close> over no element (lcm has
    no identity)
\<close>

datatype error =
    NotOrdered nat "int list"
  | CountMismatch nat nat
  | NotNormalized
  | IndexError
  | AxisError
  | EmptyReduction

subsection \<open>The arithmetic of int64\<close>

text \<open>
  \<open>wrap64\<close> reads an integer modulo \<open>2^64\<close> as a signed 64-bit value; numpy's sum,
  product and floor division on int64 are the exact operations followed by \<open>wrap64\<close>
  (floor division by zero gives 0, as \<open>div\<close> does). \<^verbatim>\<open>np.lcm\<close> on int64 computes
  \<open>|a| / gcd(|a|, |b|) * |b|\<close> in unsigned 64-bit arithmetic, 0 when the gcd is 0, and
  reads the result as signed.
\<close>

definition in_int64 :: "int \<Rightarrow> bool" where
  "in_int64 x = (- 9223372036854775808 \<le> x \<and> x < 9223372036854775808)"

definition wrap64 :: "int \<Rightarrow> int" where
  "wrap64 x = (x + 9223372036854775808) mod 18446744073709551616 - 9223372036854775808"

definition add64 :: "int \<Rightarrow> int \<Rightarrow> int" where
  "add64 a b = wrap64 (a + b)"




subsection \<open>The class\<close>

text \<open>
  The attribute \<open>_v\<close> is an array: its rows are \<open>self_v\<close>, its shape is \<open>self_shape\<close>.
\<close>

record ValuationMatrix =
  self_v :: table
  num_of_agents :: nat
  num_of_objects :: nat
  self_shape :: "nat list"

definition rectangular :: "table \<Rightarrow> bool" where
  "rectangular t = list_all (\<lambda>r. length r = length (hd t)) t"

text \<open>
  \<^verbatim>\<open>np.array\<close> of a list of lists of integers, and a two-dimensional array given by its
  rows (with no row, it is taken with no column).
\<close>

definition array_of_lists :: "table \<Rightarrow> ndarray" where
  "array_of_lists t =
     \<lparr> nd_shape = (if t = [] then [0] else [length t, length (hd t)]), nd_rows = t \<rparr>"

definition array2 :: "table \<Rightarrow> ndarray" where
  "array2 t =
     \<lparr> nd_shape = [length t, if t = [] then 0 else length (hd t)], nd_rows = t \<rparr>"

text \<open>\<^verbatim>\<open>ValuationMatrix.__init__\<close>, on an array.\<close>

definition ValuationMatrix_init :: "ndarray \<Rightarrow> ValuationMatrix" where
  "ValuationMatrix_init valuation_matrix =
     \<lparr> self_v = nd_rows valuation_matrix,
       num_of_agents = length (nd_rows valuation_matrix),
       num_of_objects = (if length (nd_rows valuation_matrix) = 0 then 0
                         else length (nd_rows valuation_matrix ! 0)),
       self_shape = nd_shape valuation_matrix \<rparr>"

text \<open>The class invariant that \<open>__init__\<close> establishes on a rectangular array.\<close>

definition wf_matrix :: "ValuationMatrix \<Rightarrow> bool" where
  "wf_matrix m =
     (rectangular (self_v m) \<and> num_of_agents m = length (self_v m) \<and>
      num_of_objects m = (if self_v m = [] then 0 else length (hd (self_v m))))"

definition agents :: "ValuationMatrix \<Rightarrow> nat list" where
  "agents m = [0..<num_of_agents m]"

definition objects :: "ValuationMatrix \<Rightarrow> nat list" where
  "objects m = [0..<num_of_objects m]"

text \<open>\<^verbatim>\<open>__getitem__\<close>: a single index gives the row, a pair gives the entry.\<close>

definition getitem_row :: "ValuationMatrix \<Rightarrow> nat \<Rightarrow> error + int list" where
  "getitem_row m key =
     (if key < length (self_v m) then Inr (self_v m ! key) else Inl IndexError)"

definition getitem :: "ValuationMatrix \<Rightarrow> nat \<Rightarrow> nat \<Rightarrow> error + int" where
  "getitem m i j =
     (case getitem_row m i of
        Inl e \<Rightarrow> Inl e
      | Inr r \<Rightarrow> if j < length r then Inr (r ! j) else Inl IndexError)"

text \<open>
  \<^verbatim>\<open>agent_value_for_bundle\<close>. The comprehension reads the entries first, and the first
  read that raises ends the call; \<^verbatim>\<open>sum\<close> then adds the entries to 0 from left to
  right, in the arithmetic of int64.
\<close>

fun collect :: "(error + 'a) list \<Rightarrow> error + 'a list" where
  "collect [] = Inr []"
| "collect (x # xs) =
     (case x of
        Inl e \<Rightarrow> Inl e
      | Inr a \<Rightarrow> (case collect xs of Inl e \<Rightarrow> Inl e | Inr as \<Rightarrow> Inr (a # as)))"

definition py_sum :: "int list \<Rightarrow> int" where
  "py_sum xs = foldl add64 0 xs"

definition agent_value_for_bundle ::
  "ValuationMatrix \<Rightarrow> nat \<Rightarrow> nat list option \<Rightarrow> error + int" where
  "agent_value_for_bundle m agent bundle =
     (case bundle of
        None \<Rightarrow> Inr 0
      | Some b \<Rightarrow>
          (case collect (map (\<lambda>object. getitem m agent object) b) of
             Inl e \<Rightarrow> Inl e
           | Inr entries \<Rightarrow> Inr (py_sum entries)))"

text \<open>
  \<^verbatim>\<open>verify_ordered\<close>: the loop over the agents, stopping at the first row in which some
  value is smaller than its right neighbour.
\<close>

definition row_has_ascent :: "nat \<Rightarrow> int list \<Rightarrow> bool" where
  "row_has_ascent n v_i = list_ex (\<lambda>j. v_i ! j < v_i ! (j + 1)) [0..<n - 1]"

fun verify_ordered_loop :: "ValuationMatrix \<Rightarrow> nat list \<Rightarrow> error + unit" where
  "verify_ordered_loop m [] = Inr ()"
| "verify_ordered_loop m (i # rest) =
     (let v_i = self_v m ! i in
      if row_has_ascent (num_of_objects m) v_i then Inl (NotOrdered i v_i)
      else verify_ordered_loop m rest)"

definition verify_ordered :: "ValuationMatrix \<Rightarrow> error + unit" where
  "verify_ordered m = verify_ordered_loop m (agents m)"

text \<open>
  \<^verbatim>\<open>normalize\<close> (lines 131-136). \<^verbatim>\<open>np.sum(self._v, axis=1)\<close> gives the row totals and
  raises on a one-dimensional array; \<^verbatim>\<open>np.lcm.reduce\<close> folds lcm over the totals from
  the first one, and raises when there is none; \<^verbatim>\<open>self._v *= total_value // total_values\<close>
  multiplies every entry of row \<open>i\<close>, in place, by the quotient of the total value and the
  total of row \<open>i\<close>. All of it is in the arithmetic of int64. The test of line 133 holds
  for int64, so lines 138-139 are not reached. The result is the returned total (numpy
  returns it as an array of one element) together with the object after the call;
  \<open>num_of_agents\<close> and \<open>num_of_objects\<close> are not assigned.
\<close>

definition total_values :: "table \<Rightarrow> int list" where
  "total_values t = map (\<lambda>row. wrap64 (sum_list row)) t"




text \<open>
  \<^verbatim>\<open>verify_normalized\<close>: every row total is compared with the first one;
  \<^verbatim>\<open>total_values[0]\<close> raises when there is no row.
\<close>

definition verify_normalized :: "ValuationMatrix \<Rightarrow> error + int" where
  "verify_normalized m =
     (if length (self_shape m) < 2 then Inl AxisError
      else
        case total_values (self_v m) of
          [] \<Rightarrow> Inl IndexError
        | t0 # _ \<Rightarrow>
            if list_all (\<lambda>t. t = t0) (total_values (self_v m)) then Inr t0
            else Inl NotNormalized)"


section \<open>Building a matrix from the accepted inputs (matrix_from)\<close>

text \<open>
  A Python dict keeps its items in insertion order: it is an association list here, and
  \<^verbatim>\<open>d.values()\<close> is the list of the second components. An element of a list input is
  a list of numbers or a dict from item labels to numbers.
\<close>

datatype row_input = RowList "int list" | RowDict "(string \<times> int) list"

datatype input =
    InMatrix ValuationMatrix
  | InDict "(string \<times> row_input) list"
  | InList "row_input list"
  | InArray table

definition dict_values :: "('k \<times> 'a) list \<Rightarrow> 'a list" where
  "dict_values d = map snd d"

text \<open>
  The loop \<^verbatim>\<open>for i in range(len(input))\<close> of \<open>matrix_from\<close>: every element that is a
  dict is overwritten, in the list itself, by the list of its values.
\<close>

fun convert_loop :: "nat list \<Rightarrow> row_input list \<Rightarrow> row_input list" where
  "convert_loop [] inp = inp"
| "convert_loop (i # rest) inp =
     convert_loop rest
       (case inp ! i of
          RowDict d \<Rightarrow> inp[i := RowList (dict_values d)]
        | RowList r \<Rightarrow> inp)"

text \<open>
  \<^verbatim>\<open>np.array(input)\<close> is reached after the loop only, when every element is a list
  (lemma \<open>convert_loop_all_lists\<close> below); \<open>row_of\<close> reads such an element.
\<close>

fun row_of :: "row_input \<Rightarrow> int list" where
  "row_of (RowList r) = r"

fun is_dict :: "row_input \<Rightarrow> bool" where
  "is_dict (RowDict d) = True"
| "is_dict (RowList r) = False"

definition np_array :: "row_input list \<Rightarrow> ndarray" where
  "np_array inp = array_of_lists (map row_of inp)"

text \<open>
  \<open>matrix_from\<close> returns the matrix together with the caller's argument as the call
  leaves it: a list argument is the very list the loop writes to, a dict argument is
  first copied into a fresh list by \<^verbatim>\<open>list(input.values())\<close>. An array argument is
  two-dimensional and given by its rows.
\<close>

fun matrix_from :: "input \<Rightarrow> ValuationMatrix \<times> input" where
  "matrix_from (InMatrix m) = (m, InMatrix m)"
| "matrix_from (InDict d) =
     (let inp = convert_loop [0..<length (dict_values d)] (dict_values d)
      in (ValuationMatrix_init (np_array inp), InDict d))"
| "matrix_from (InList l) =
     (let inp = convert_loop [0..<length l] l
      in (ValuationMatrix_init (np_array inp), InList inp))"
| "matrix_from (InArray a) = (ValuationMatrix_init (array2 a), InArray a)"

section \<open>Agents (src/indivisible/agents.py)\<close>

text \<open>
  An agent pairs a valuation with an optional name and a duplicity. The valuation classes
  are not among the source files; of the valuation only the text of its \<^verbatim>\<open>__repr__\<close>
  matters here, and it is a field of the record.
\<close>

record Agent =
  valuation_repr :: string
  name_attr :: "string option"
  duplicity :: int

definition name :: "Agent \<Rightarrow> string" where
  "name a = (case name_attr a of Some n \<Rightarrow> n | None \<Rightarrow> ''Anonymous'')"

text \<open>Python's \<^verbatim>\<open>str\<close> of an integer: its decimal digits, with a minus sign when negative.\<close>

definition digit_char :: "nat \<Rightarrow> char" where
  "digit_char d = ''0123456789'' ! d"

function str_nat :: "nat \<Rightarrow> string" where
  "str_nat n = (if n < 10 then [digit_char n] else str_nat (n div 10) @ [digit_char (n mod 10)])"
  by pat_completeness auto
termination
  by (relation "measure (\<lambda>n. n)") auto

declare str_nat.simps [simp del]

definition str_int :: "int \<Rightarrow> string" where
  "str_int i = (if i < 0 then CHR ''-'' # str_nat (nat (- i)) else str_nat (nat i))"

definition repr :: "Agent \<Rightarrow> string" where
  "repr a =
     (if duplicity a = 1
      then name a @ '' is an agent with a '' @ valuation_repr a
      else name a @ '' are '' @ str_int (duplicity a) @ '' agents with a '' @ valuation_repr a)"

text \<open>The number a string of decimal digits denotes, to read \<open>str_nat\<close> back.\<close>

definition digit_value :: "char \<Rightarrow> nat" where
  "digit_value c = of_char c - 48"

definition decimal_value :: "string \<Rightarrow> nat" where
  "decimal_value s = foldl (\<lambda>acc c. 10 * acc + digit_value c) 0 s"

section \<open>Bidirectional bag filling (src/items/one_of_threehalves_mms.py)\<close>

text \<open>
  Modelled from the spec: \<open>SequentialAllocation\<close>, of fairpy.items.bag_filling, which is
  not among the source files. The spec: a mutable record of \<open>remaining_objects\<close> (ordered
  sequence, original order preserved), \<open>remaining_agents\<close> and \<open>bundles\<close> (partial
  agent-to-bundle map); \<open>let_agent_get_objects(agent, objects)\<close> records
  \<open>bundles[agent] = objects\<close>, removes the agent from \<open>remaining_agents\<close> and removes
  every item in \<open>objects\<close> from \<open>remaining_objects\<close>.
\<close>

record SequentialAllocation =
  remaining_objects :: "nat list"
  remaining_agents :: "nat list"
  bundles :: "nat \<rightharpoonup> nat list"

definition SequentialAllocation_init :: "nat list \<Rightarrow> nat list \<Rightarrow> SequentialAllocation" where
  "SequentialAllocation_init ags objs =
     \<lparr> remaining_objects = objs, remaining_agents = ags, bundles = Map.empty \<rparr>"

definition let_agent_get_objects ::
  "SequentialAllocation \<Rightarrow> nat \<Rightarrow> nat list \<Rightarrow> SequentialAllocation" where
  "let_agent_get_objects allocation agent allocated_objects =
     \<lparr> remaining_objects =
         filter (\<lambda>object. object \<notin> set allocated_objects) (remaining_objects allocation),
       remaining_agents = removeAll agent (remaining_agents allocation),
       bundles = (bundles allocation)(agent \<mapsto> allocated_objects) \<rparr>"

text \<open>
  Modelled from the spec: \<open>Bag\<close>, of fairpy.items.bag_filling, which is not among the
  source files. The spec: an accumulator of items plus a reference to the valuation
  matrix and the thresholds; \<open>append(item)\<close> adds one item unconditionally; \<open>fill\<close>
  repeatedly takes the next candidate item, adds it to the bag, and checks whether any
  candidate agent now values the bag at or above its threshold, returning as soon as one
  qualifies (the first in the order of the candidate agents), and returning no agent with
  the items consumed so far when the candidate items are exhausted; \<open>reset()\<close> empties
  the bag and keeps the matrix and the thresholds. The thresholds are integers here, as
  the values are.
\<close>

record Bag =
  bag_valuation_matrix :: ValuationMatrix
  bag_thresholds :: "int list"
  bag_objects :: "nat list"

definition Bag_init :: "ValuationMatrix \<Rightarrow> int list \<Rightarrow> Bag" where
  "Bag_init m thr = \<lparr> bag_valuation_matrix = m, bag_thresholds = thr, bag_objects = [] \<rparr>"

definition append_item :: "Bag \<Rightarrow> nat \<Rightarrow> Bag" where
  "append_item bag item = bag\<lparr>bag_objects := bag_objects bag @ [item]\<rparr>"

definition reset :: "Bag \<Rightarrow> Bag" where
  "reset bag = bag\<lparr>bag_objects := []\<rparr>"

definition bag_value :: "Bag \<Rightarrow> nat \<Rightarrow> int" where
  "bag_value bag agent =
     sum_list (map (\<lambda>object. self_v (bag_valuation_matrix bag) ! agent ! object)
                   (bag_objects bag))"

definition willing_agent :: "Bag \<Rightarrow> nat list \<Rightarrow> nat option" where
  "willing_agent bag candidate_agents =
     find (\<lambda>agent. bag_thresholds bag ! agent \<le> bag_value bag agent) candidate_agents"

fun fill :: "Bag \<Rightarrow> nat list \<Rightarrow> nat list \<Rightarrow> (nat option \<times> nat list) \<times> Bag" where
  "fill bag [] candidate_agents = ((None, bag_objects bag), bag)"
| "fill bag (item # rest) candidate_agents =
     (let bag' = append_item bag item in
      case willing_agent bag' candidate_agents of
        Some agent \<Rightarrow> ((Some agent, bag_objects bag'), bag')
      | None \<Rightarrow> fill bag' rest candidate_agents)"

lemma fill_keeps_bag:
  "fill bag items ags = ((r, allocated), bag') \<Longrightarrow> set (bag_objects bag) \<subseteq> set allocated"
proof (induction items arbitrary: bag)
  case Nil
  then show ?case by auto
next
  case (Cons item rest)
  show ?case
  proof (cases "willing_agent (append_item bag item) ags")
    case None
    with Cons.prems have "fill (append_item bag item) rest ags = ((r, allocated), bag')"
      by simp
    from Cons.IH[OF this] show ?thesis by (auto simp: append_item_def)
  next
    case (Some a)
    with Cons.prems show ?thesis by (auto simp: append_item_def)
  qed
qed

text \<open>
  The \<^verbatim>\<open>while True\<close> loop of \<open>bidirectional_bag_filling\<close>: it ends when no object
  remains or when \<open>fill\<close> finds no willing agent; otherwise the willing agent gets the
  bag and the bag is reset.
\<close>

function bag_filling_loop :: "SequentialAllocation \<Rightarrow> Bag \<Rightarrow> SequentialAllocation" where
  "bag_filling_loop allocation bag =
     (case remaining_objects allocation of
        [] \<Rightarrow> allocation
      | highest_valued_object # others \<Rightarrow>
          (case fill (append_item bag highest_valued_object) (rev others)
                  (remaining_agents allocation) of
             ((None, allocated_objects), bag') \<Rightarrow> allocation
           | ((Some agent, allocated_objects), bag') \<Rightarrow>
               bag_filling_loop
                 (let_agent_get_objects allocation agent allocated_objects) (reset bag')))"
  by pat_completeness auto
termination
proof (relation "measure (\<lambda>(allocation, bag). length (remaining_objects allocation))")
  show "wf (measure (\<lambda>(allocation, bag). length (remaining_objects allocation)))"
    by simp
next
  fix allocation :: SequentialAllocation and bag :: Bag
    and h others x1 bag' x1a allocated a
  assume ro: "remaining_objects allocation = h # others"
    and f: "(x1, bag') = fill (append_item bag h) (rev others) (remaining_agents allocation)"
    and x1: "(x1a, allocated) = x1"
    and a: "x1a = Some a"
  from f x1 have "fill (append_item bag h) (rev others) (remaining_agents allocation)
      = ((x1a, allocated), bag')"
    by simp
  from fill_keeps_bag[OF this] have "h \<in> set allocated"
    by (simp add: append_item_def)
  then have "length (filter (\<lambda>object. object \<notin> set allocated) (h # others)) < length (h # others)"
    by (simp add: le_imp_less_Suc)
  with ro show "((let_agent_get_objects allocation a allocated, reset bag'), (allocation, bag))
      \<in> measure (\<lambda>(allocation, bag). length (remaining_objects allocation))"
    by (simp add: let_agent_get_objects_def)
qed

declare bag_filling_loop.simps [simp del]

text \<open>
  Modelled from the spec: \<open>Allocation\<close>, of fairpy.allocations, which is not among the
  source files. The spec: it holds the final agent-to-bundle mapping; an agent with no
  entry is mapped to no bundle (null), with value 0. The value of an agent's bundle is
  \<open>agent_value_for_bundle\<close> of the matrix.
\<close>

record Allocation =
  alloc_matrix :: ValuationMatrix
  alloc_bundles :: "nat list option list"

definition Allocation_init :: "ValuationMatrix \<Rightarrow> (nat \<rightharpoonup> nat list) \<Rightarrow> Allocation" where
  "Allocation_init m bs = \<lparr> alloc_matrix = m, alloc_bundles = map bs (agents m) \<rparr>"

definition alloc_values :: "Allocation \<Rightarrow> (error + int) list" where
  "alloc_values a =
     map (\<lambda>agent. agent_value_for_bundle (alloc_matrix a) agent (alloc_bundles a ! agent))
         [0..<length (alloc_bundles a)]"

definition bidirectional_bag_filling :: "input \<Rightarrow> int list \<Rightarrow> error + Allocation" where
  "bidirectional_bag_filling inp thr =
     (let valuation_matrix = fst (matrix_from inp) in
      case verify_ordered valuation_matrix of
        Inl e \<Rightarrow> Inl e
      | Inr u \<Rightarrow>
          if length thr \<noteq> num_of_agents valuation_matrix
          then Inl (CountMismatch (num_of_agents valuation_matrix) (length thr))
          else
            Inr (Allocation_init valuation_matrix
                   (bundles (bag_filling_loop
                      (SequentialAllocation_init (agents valuation_matrix)
                         (objects valuation_matrix))
                      (Bag_init valuation_matrix thr)))))"

section \<open>Matrices as objects in a store of arrays\<close>

type_synonym store = "ndarray list"




















section \<open>Notions used in the statements\<close>

text \<open>
  The invariant of an object built by \<open>__init__\<close> from an int64 array: the rows are of
  one length, the counts and the shape are those of the array, the entries are in the
  range of int64. The array is one-dimensional and empty, or two-dimensional.
\<close>

definition valid_matrix :: "ValuationMatrix \<Rightarrow> bool" where
  "valid_matrix m =
     (wf_matrix m \<and> list_all (list_all in_int64) (self_v m) \<and>
      (self_shape m = [0] \<and> self_v m = [] \<or>
       length (self_shape m) = 2 \<and> self_shape m ! 0 = length (self_v m) \<and>
       list_all (\<lambda>row. length row = self_shape m ! 1) (self_v m)))"

text \<open>
  The row totals of a table are all equal: every two rows have the same sum. The second
  notion is about the totals as \<^verbatim>\<open>np.sum\<close> computes them in int64.
\<close>

definition all_totals_equal :: "table \<Rightarrow> bool" where
  "all_totals_equal t = list_all (\<lambda>r. list_all (\<lambda>r'. sum_list r = sum_list r') t) t"

definition all_computed_totals_equal :: "table \<Rightarrow> bool" where
  "all_computed_totals_equal t =
     list_all (\<lambda>r. list_all (\<lambda>r'. wrap64 (sum_list r) = wrap64 (sum_list r')) t) t"

text \<open>A bundle whose agent and objects are indices of the matrix.\<close>

definition valid_bundle :: "ValuationMatrix \<Rightarrow> nat \<Rightarrow> nat list \<Rightarrow> bool" where
  "valid_bundle m agent b =
     (agent < length (self_v m) \<and> list_all (\<lambda>object. object < length (self_v m ! agent)) b)"



text \<open>
  A row is not non-increasing when some value is smaller than its right neighbour:
  some adjacent pair \<open>(v[j], v[j+1])\<close> has \<open>v[j] < v[j+1]\<close>.
\<close>

definition ascends :: "int list \<Rightarrow> bool" where
  "ascends r = list_ex (\<lambda>(a, b). a < b) (zip r (tl r))"

text \<open>
  What the loop of \<open>matrix_from\<close> does to one element: a dict becomes the list of its
  values, a list stays.
\<close>

fun convert_element :: "row_input \<Rightarrow> row_input" where
  "convert_element (RowDict d) = RowList (dict_values d)"
| "convert_element (RowList r) = RowList r"

text \<open>
  The instance of the docstring of \<open>bidirectional_bag_filling\<close>: three agents with the
  same row of values, built with \<open>matrix_from\<close> from a list of three lists.
\<close>

definition identical_valuations :: "int list" where
  "identical_valuations = [97, 96, 90, 12, 3, 2, 1, 1, 1]"

definition scenario_matrix :: ValuationMatrix where
  "scenario_matrix = fst (matrix_from (InList (replicate 3 (RowList identical_valuations))))"

definition scenario_loop :: "int list \<Rightarrow> SequentialAllocation" where
  "scenario_loop thr =
     bag_filling_loop
       (SequentialAllocation_init (agents scenario_matrix) (objects scenario_matrix))
       (Bag_init scenario_matrix thr)"

text \<open>The arrays of a store are kept by a call: each stays where it is, as it is.\<close>

definition keeps_arrays :: "store \<Rightarrow> store \<Rightarrow> bool" where
  "keeps_arrays st st' = (take (length st) st' = st)"



section \<open>Properties of the arithmetic of int64\<close>

lemma wrap64_id: "in_int64 x \<Longrightarrow> wrap64 x = x"
  by (simp add: in_int64_def wrap64_def)

lemma in_int64_wrap64: "in_int64 (wrap64 x)"
  by (simp add: in_int64_def wrap64_def)

lemma wrap64_add_left: "wrap64 (wrap64 a + b) = wrap64 (a + b)"
  by (simp add: wrap64_def algebra_simps mod_simps)


lemma foldl_add64: "in_int64 acc \<Longrightarrow> foldl add64 acc xs = wrap64 (acc + sum_list xs)"
proof (induction xs arbitrary: acc)
  case Nil
  then show ?case by (simp add: wrap64_id)
next
  case (Cons x xs)
  have "foldl add64 (acc) (x # xs) = foldl add64 (add64 acc x) xs"
    by simp
  also have "\<dots> = wrap64 (add64 acc x + sum_list xs)"
    by (rule Cons.IH) (simp add: add64_def in_int64_wrap64)
  also have "\<dots> = wrap64 (acc + x + sum_list xs)"
    unfolding add64_def by (rule wrap64_add_left)
  also have "\<dots> = wrap64 (acc + sum_list (x # xs))"
    by (simp add: add.assoc)
  finally show ?case .
qed

lemma py_sum_wrap64: "py_sum xs = wrap64 (sum_list xs)"
  using foldl_add64[of 0 xs] by (simp add: py_sum_def in_int64_def)


section \<open>Properties of the valuation matrix\<close>

subsection \<open>Row totals and \<open>verify_normalized\<close>\<close>

lemma all_totals_equal_hd:
  "t \<noteq> [] \<Longrightarrow> all_totals_equal t \<longleftrightarrow> (\<forall>r \<in> set t. sum_list r = sum_list (hd t))"
  unfolding all_totals_equal_def list_all_iff
  by (cases t) auto

lemma all_computed_totals_equal_hd:
  "t \<noteq> [] \<Longrightarrow> all_computed_totals_equal t \<longleftrightarrow>
     (\<forall>r \<in> set t. wrap64 (sum_list r) = wrap64 (sum_list (hd t)))"
  unfolding all_computed_totals_equal_def list_all_iff
  by (cases t) auto

lemma computed_totals_exact:
  "list_all (\<lambda>row. in_int64 (sum_list row)) t \<Longrightarrow>
   all_computed_totals_equal t = all_totals_equal t"
  unfolding all_computed_totals_equal_def all_totals_equal_def list_all_iff
  by (auto simp: wrap64_id)

lemma valid_matrix_two_dimensional:
  "valid_matrix m \<Longrightarrow> self_v m \<noteq> [] \<Longrightarrow> \<not> length (self_shape m) < 2"
  by (auto simp: valid_matrix_def)

text \<open>
  Claim C6, as the code has it. For every int64 matrix with at least one agent,
  \<open>verify_normalized\<close> raises if and only if the row totals as \<^verbatim>\<open>np.sum\<close> computes them
  in int64, wrapping around, are not all equal, and the error is then the one that says
  the matrix is not normalized; when they are all equal it returns that common computed
  total and raises nothing. When every row total is in the range of int64, the computed
  totals are the row totals: it raises if and only if the row totals are not all equal,
  and otherwise returns the common total.
\<close>

theorem verify_normalized_iff:
  assumes "valid_matrix m" and "self_v m \<noteq> []"
  shows "(isl (verify_normalized m) \<longleftrightarrow> \<not> all_computed_totals_equal (self_v m)) \<and>
         (all_computed_totals_equal (self_v m) \<longrightarrow>
            verify_normalized m = Inr (wrap64 (sum_list (hd (self_v m))))) \<and>
         (\<not> all_computed_totals_equal (self_v m) \<longrightarrow> verify_normalized m = Inl NotNormalized) \<and>
         (list_all (\<lambda>row. in_int64 (sum_list row)) (self_v m) \<longrightarrow>
            (isl (verify_normalized m) \<longleftrightarrow> \<not> all_totals_equal (self_v m)) \<and>
            (all_totals_equal (self_v m) \<longrightarrow>
               verify_normalized m = Inr (sum_list (hd (self_v m)))))"
proof -
  obtain r rs where t: "self_v m = r # rs"
    using assms(2) by (cases "self_v m") auto
  have eq: "all_computed_totals_equal (self_v m) \<longleftrightarrow>
      list_all (\<lambda>x. x = wrap64 (sum_list r)) (total_values (self_v m))"
    using all_computed_totals_equal_hd[OF assms(2)] t
    by (auto simp: total_values_def list_all_iff)
  have computed: "(isl (verify_normalized m) \<longleftrightarrow> \<not> all_computed_totals_equal (self_v m)) \<and>
         (all_computed_totals_equal (self_v m) \<longrightarrow>
            verify_normalized m = Inr (wrap64 (sum_list (hd (self_v m))))) \<and>
         (\<not> all_computed_totals_equal (self_v m) \<longrightarrow> verify_normalized m = Inl NotNormalized)"
    using t eq valid_matrix_two_dimensional[OF assms]
    by (simp add: verify_normalized_def total_values_def)
  have exact: "list_all (\<lambda>row. in_int64 (sum_list row)) (self_v m) \<longrightarrow>
            (isl (verify_normalized m) \<longleftrightarrow> \<not> all_totals_equal (self_v m)) \<and>
            (all_totals_equal (self_v m) \<longrightarrow>
               verify_normalized m = Inr (sum_list (hd (self_v m))))"
  proof
    assume fits: "list_all (\<lambda>row. in_int64 (sum_list row)) (self_v m)"
    then have "wrap64 (sum_list (hd (self_v m))) = sum_list (hd (self_v m))"
      using t by (simp add: wrap64_id)
    with computed computed_totals_exact[OF fits]
    show "(isl (verify_normalized m) \<longleftrightarrow> \<not> all_totals_equal (self_v m)) \<and>
            (all_totals_equal (self_v m) \<longrightarrow>
               verify_normalized m = Inr (sum_list (hd (self_v m))))"
      by simp
  qed
  from computed exact show ?thesis by blast
qed

theorem verify_normalized_iff_witness:
  "valid_matrix (ValuationMatrix_init (array_of_lists [[1, 2], [2, 1]])) \<and>
   self_v (ValuationMatrix_init (array_of_lists [[1, 2], [2, 1]])) \<noteq> [] \<and>
   list_all (\<lambda>row. in_int64 (sum_list row))
     (self_v (ValuationMatrix_init (array_of_lists [[1, 2], [2, 1]]))) \<and>
   all_totals_equal (self_v (ValuationMatrix_init (array_of_lists [[1, 2], [2, 1]]))) \<and>
   verify_normalized (ValuationMatrix_init (array_of_lists [[1, 2], [2, 1]])) = Inr 3"
proof -
  let ?m = "ValuationMatrix_init (array_of_lists [[1, 2], [2, 1]])"
  have v: "valid_matrix ?m"
    by (simp add: valid_matrix_def wf_matrix_def rectangular_def ValuationMatrix_init_def
        array_of_lists_def in_int64_def)
  have n: "self_v ?m \<noteq> []"
    by (simp add: ValuationMatrix_init_def array_of_lists_def)
  have f: "list_all (\<lambda>row. in_int64 (sum_list row)) (self_v ?m)"
    by (simp add: ValuationMatrix_init_def array_of_lists_def in_int64_def)
  have e: "all_totals_equal (self_v ?m)"
    by (simp add: ValuationMatrix_init_def array_of_lists_def all_totals_equal_def)
  from verify_normalized_iff[OF v n] f e
  have "verify_normalized ?m = Inr (sum_list (hd (self_v ?m)))"
    by blast
  then have "verify_normalized ?m = Inr 3"
    by (simp add: ValuationMatrix_init_def array_of_lists_def)
  with v n f e show ?thesis by blast
qed

text \<open>
  The claim about the row totals themselves fails where a total leaves the range of
  int64: the rows \<open>[2^62, 2^62]\<close> and \<open>[-2^62, -2^62]\<close> have the totals \<open>2^63\<close> and
  \<open>-2^63\<close>, which differ, and \<open>verify_normalized\<close> returns \<open>-2^63\<close>.
\<close>

theorem verify_normalized_wrap_counterexample:
  "valid_matrix (ValuationMatrix_init (array_of_lists
       [[4611686018427387904, 4611686018427387904],
        [- 4611686018427387904, - 4611686018427387904]])) \<and>
   self_v (ValuationMatrix_init (array_of_lists
       [[4611686018427387904, 4611686018427387904],
        [- 4611686018427387904, - 4611686018427387904]])) \<noteq> [] \<and>
   \<not> all_totals_equal (self_v (ValuationMatrix_init (array_of_lists
       [[4611686018427387904, 4611686018427387904],
        [- 4611686018427387904, - 4611686018427387904]]))) \<and>
   verify_normalized (ValuationMatrix_init (array_of_lists
       [[4611686018427387904, 4611686018427387904],
        [- 4611686018427387904, - 4611686018427387904]])) = Inr (- 9223372036854775808)"
  by (simp add: verify_normalized_def ValuationMatrix_init_def array_of_lists_def
      total_values_def wrap64_def all_totals_equal_def valid_matrix_def wf_matrix_def
      rectangular_def in_int64_def)

subsection \<open>The value of a bundle\<close>

lemma collect_Inr:
  "list_all (\<lambda>x. f x = Inr (g x)) xs \<Longrightarrow> collect (map f xs) = Inr (map g xs)"
  by (induction xs) auto

lemma collect_Inl:
  "list_ex (\<lambda>x. isl (f x)) xs \<Longrightarrow> list_all (\<lambda>x. isl (f x) \<longrightarrow> f x = Inl e) xs \<Longrightarrow>
   collect (map f xs) = Inl e"
  by (induction xs) (auto split: sum.splits)

lemma getitem_cases:
  "getitem m i j =
     (if i < length (self_v m) \<and> j < length (self_v m ! i) then Inr (self_v m ! i ! j)
      else Inl IndexError)"
  by (simp add: getitem_def getitem_row_def)

text \<open>
  Claim C8, as the code has it. \<open>agent_value_for_bundle\<close> returns 0 for the null bundle.
  For a bundle given as a list of object indices of the matrix it returns the sum of the
  agent's values for the listed objects as int64 computes it, wrapping around: the sum
  itself whenever that is in the range of int64. An index outside the matrix raises
  \<open>IndexError\<close>.
\<close>

theorem agent_value_for_bundle_sum:
  "agent_value_for_bundle m agent None = Inr 0 \<and>
   agent_value_for_bundle m agent (Some b) =
     (if b = [] \<or> valid_bundle m agent b
      then Inr (wrap64 (\<Sum>object\<leftarrow>b. self_v m ! agent ! object))
      else Inl IndexError) \<and>
   (valid_bundle m agent b \<and> in_int64 (\<Sum>object\<leftarrow>b. self_v m ! agent ! object) \<longrightarrow>
      agent_value_for_bundle m agent (Some b) = Inr (\<Sum>object\<leftarrow>b. self_v m ! agent ! object))"
proof -
  have none: "agent_value_for_bundle m agent None = Inr 0"
    by (simp add: agent_value_for_bundle_def)
  have some: "agent_value_for_bundle m agent (Some b) =
     (if b = [] \<or> valid_bundle m agent b
      then Inr (wrap64 (\<Sum>object\<leftarrow>b. self_v m ! agent ! object))
      else Inl IndexError)"
  proof (cases "b = [] \<or> valid_bundle m agent b")
    case True
    then have "list_all (\<lambda>object. getitem m agent object = Inr (self_v m ! agent ! object)) b"
      by (auto simp: valid_bundle_def getitem_cases list_all_iff)
    from collect_Inr[OF this] True show ?thesis
      by (simp add: agent_value_for_bundle_def py_sum_wrap64)
  next
    case False
    then have ex: "list_ex (\<lambda>object. isl (getitem m agent object)) b"
      by (cases b) (auto simp: valid_bundle_def getitem_cases list_all_iff list_ex_iff)
    have "list_all (\<lambda>object. isl (getitem m agent object) \<longrightarrow>
        getitem m agent object = Inl IndexError) b"
      by (auto simp: getitem_cases list_all_iff)
    from collect_Inl[OF ex this] False show ?thesis
      by (simp add: agent_value_for_bundle_def)
  qed
  have exact: "valid_bundle m agent b \<and> in_int64 (\<Sum>object\<leftarrow>b. self_v m ! agent ! object) \<longrightarrow>
      agent_value_for_bundle m agent (Some b) = Inr (\<Sum>object\<leftarrow>b. self_v m ! agent ! object)"
    using some by (simp add: wrap64_id)
  from none some exact show ?thesis by blast
qed

theorem agent_value_for_bundle_sum_witness:
  "valid_bundle (ValuationMatrix_init (array_of_lists [[1, 4, 7], [6, 3, 0]])) 0 [0, 2] \<and>
   in_int64 (\<Sum>object\<leftarrow>[0, 2]. self_v (ValuationMatrix_init (array_of_lists [[1, 4, 7], [6, 3, 0]])) ! 0 ! object) \<and>
   agent_value_for_bundle (ValuationMatrix_init (array_of_lists [[1, 4, 7], [6, 3, 0]])) 0 None = Inr 0 \<and>
   agent_value_for_bundle (ValuationMatrix_init (array_of_lists [[1, 4, 7], [6, 3, 0]])) 0 (Some [0, 2]) = Inr 8 \<and>
   agent_value_for_bundle (ValuationMatrix_init (array_of_lists [[1, 4, 7], [6, 3, 0]])) 1 (Some [1, 0]) = Inr 9"
proof -
  let ?m = "ValuationMatrix_init (array_of_lists [[1, 4, 7], [6, 3, 0]])"
  have v0: "valid_bundle ?m 0 [0, 2]" and v1: "valid_bundle ?m 1 [1, 0]"
    by (simp_all add: valid_bundle_def ValuationMatrix_init_def array_of_lists_def)
  have i0: "in_int64 (\<Sum>object\<leftarrow>[0, 2]. self_v ?m ! 0 ! object)"
    and i1: "in_int64 (\<Sum>object\<leftarrow>[1, 0]. self_v ?m ! 1 ! object)"
    by (simp_all add: in_int64_def ValuationMatrix_init_def array_of_lists_def)
  from agent_value_for_bundle_sum[of ?m 0 "[0, 2]"] v0 i0
  have a: "agent_value_for_bundle ?m 0 None = Inr 0"
    and b: "agent_value_for_bundle ?m 0 (Some [0, 2]) = Inr 8"
    by (simp_all add: ValuationMatrix_init_def array_of_lists_def wrap64_def)
  from agent_value_for_bundle_sum[of ?m 1 "[1, 0]"] v1 i1
  have c: "agent_value_for_bundle ?m 1 (Some [1, 0]) = Inr 9"
    by (simp add: ValuationMatrix_init_def array_of_lists_def wrap64_def)
  from v0 i0 a b c show ?thesis by blast
qed

text \<open>
  The claim about the sum itself fails where it leaves the range of int64: for the row
  \<open>[2^62, 2^62]\<close> and the bundle of both objects the sum is \<open>2^63\<close> and the value
  returned is \<open>-2^63\<close>.
\<close>

theorem agent_value_for_bundle_wrap_counterexample:
  "valid_matrix (ValuationMatrix_init (array_of_lists
       [[4611686018427387904, 4611686018427387904]])) \<and>
   valid_bundle (ValuationMatrix_init (array_of_lists
       [[4611686018427387904, 4611686018427387904]])) 0 [0, 1] \<and>
   (\<Sum>object\<leftarrow>[0, 1]. self_v (ValuationMatrix_init (array_of_lists
       [[4611686018427387904, 4611686018427387904]])) ! 0 ! object) = 9223372036854775808 \<and>
   agent_value_for_bundle (ValuationMatrix_init (array_of_lists
       [[4611686018427387904, 4611686018427387904]])) 0 (Some [0, 1])
     = Inr (- 9223372036854775808)"
  by (simp add: agent_value_for_bundle_def getitem_def getitem_row_def py_sum_def add64_def
      wrap64_def valid_bundle_def ValuationMatrix_init_def array_of_lists_def
      valid_matrix_def wf_matrix_def rectangular_def in_int64_def)

section \<open>Properties of bidirectional bag filling\<close>

subsection \<open>The ordering precondition\<close>

lemma ascends_iff: "ascends r \<longleftrightarrow> (\<exists>j. Suc j < length r \<and> r ! j < r ! Suc j)"
proof
  assume "ascends r"
  then obtain a b where ab: "(a, b) \<in> set (zip r (tl r))" "a < b"
    by (auto simp: ascends_def list_ex_iff)
  then obtain j where j: "j < length r" "j < length (tl r)" "a = r ! j" "b = tl r ! j"
    unfolding in_set_zip by auto
  then have "Suc j < length r \<and> r ! j < r ! Suc j"
    using ab by (simp add: nth_tl)
  then show "\<exists>j. Suc j < length r \<and> r ! j < r ! Suc j" ..
next
  assume "\<exists>j. Suc j < length r \<and> r ! j < r ! Suc j"
  then obtain j where j: "Suc j < length r" "r ! j < r ! Suc j" by blast
  then have "(r ! j, tl r ! j) \<in> set (zip r (tl r))"
    by (auto simp: set_zip intro!: exI[of _ j])
  with j show "ascends r"
    by (auto simp: ascends_def list_ex_iff nth_tl)
qed

lemma row_has_ascent_iff: "row_has_ascent (length r) r = ascends r"
  unfolding ascends_iff row_has_ascent_def list_ex_iff
  by (auto simp: less_diff_conv)

lemma verify_ordered_loop_find:
  "verify_ordered_loop m ags =
     (case find (\<lambda>i. row_has_ascent (num_of_objects m) (self_v m ! i)) ags of
        None \<Rightarrow> Inr ()
      | Some i \<Rightarrow> Inl (NotOrdered i (self_v m ! i)))"
  by (induction ags) (auto simp: Let_def)

lemma wf_matrix_row_length:
  "wf_matrix m \<Longrightarrow> i < length (self_v m) \<Longrightarrow> length (self_v m ! i) = num_of_objects m"
  by (cases "self_v m") (auto simp: wf_matrix_def rectangular_def list_all_length)

lemma verify_ordered_ascends:
  assumes "wf_matrix m"
  shows "verify_ordered m =
     (case find (\<lambda>i. ascends (self_v m ! i)) [0..<length (self_v m)] of
        None \<Rightarrow> Inr ()
      | Some i \<Rightarrow> Inl (NotOrdered i (self_v m ! i)))"
proof -
  have n: "num_of_agents m = length (self_v m)"
    using assms by (simp add: wf_matrix_def)
  have "find (\<lambda>i. row_has_ascent (num_of_objects m) (self_v m ! i)) [0..<length (self_v m)]
      = find (\<lambda>i. ascends (self_v m ! i)) [0..<length (self_v m)]"
    by (rule find_cong) (auto simp: wf_matrix_row_length[OF assms, symmetric] row_has_ascent_iff)
  then show ?thesis
    by (simp add: verify_ordered_def agents_def n verify_ordered_loop_find)
qed

lemma find_ascends_None:
  "find (\<lambda>i. ascends (t ! i)) [0..<length t] = None \<longleftrightarrow> \<not> list_ex ascends t"
  by (auto simp: find_None_iff list_ex_iff in_set_conv_nth dest: nth_mem)

lemma find_ascends_Some:
  "find (\<lambda>i. ascends (t ! i)) [0..<length t] = Some i \<longleftrightarrow>
     i < length t \<and> ascends (t ! i) \<and> (\<forall>k<i. \<not> ascends (t ! k))"
  by (auto simp: find_Some_iff)

text \<open>
  Claim C1. \<open>bidirectional_bag_filling\<close> requires an ordered matrix. If some row of the
  matrix has an adjacent pair with \<open>v[j] < v[j+1]\<close>, the call ends with the error that
  names the first such agent and its row, and no allocation is built (the result is
  the error); if every row is non-increasing, no such error is raised, whatever the
  thresholds.
\<close>

theorem ordering_violation_reported:
  assumes "wf_matrix (fst (matrix_from inp))"
  shows "(list_ex ascends (self_v (fst (matrix_from inp))) \<longrightarrow>
            (\<exists>i < length (self_v (fst (matrix_from inp))).
               ascends (self_v (fst (matrix_from inp)) ! i) \<and>
               (\<forall>k<i. \<not> ascends (self_v (fst (matrix_from inp)) ! k)) \<and>
               bidirectional_bag_filling inp thr =
                 Inl (NotOrdered i (self_v (fst (matrix_from inp)) ! i)))) \<and>
         (\<not> list_ex ascends (self_v (fst (matrix_from inp))) \<longrightarrow>
            (\<forall>i row. bidirectional_bag_filling inp thr \<noteq> Inl (NotOrdered i row)))"
proof (intro conjI impI)
  let ?m = "fst (matrix_from inp)"
  assume ex: "list_ex ascends (self_v ?m)"
  then obtain i where i: "find (\<lambda>i. ascends (self_v ?m ! i)) [0..<length (self_v ?m)] = Some i"
    using find_ascends_None[of "self_v ?m"] by (cases "find (\<lambda>i. ascends (self_v ?m ! i)) [0..<length (self_v ?m)]") auto
  then have "bidirectional_bag_filling inp thr = Inl (NotOrdered i (self_v ?m ! i))"
    by (simp add: bidirectional_bag_filling_def verify_ordered_ascends[OF assms])
  with i show "\<exists>i < length (self_v ?m). ascends (self_v ?m ! i) \<and>
      (\<forall>k<i. \<not> ascends (self_v ?m ! k)) \<and>
      bidirectional_bag_filling inp thr = Inl (NotOrdered i (self_v ?m ! i))"
    unfolding find_ascends_Some by blast
next
  let ?m = "fst (matrix_from inp)"
  assume "\<not> list_ex ascends (self_v ?m)"
  then have "find (\<lambda>i. ascends (self_v ?m ! i)) [0..<length (self_v ?m)] = None"
    by (simp add: find_ascends_None)
  then show "\<forall>i row. bidirectional_bag_filling inp thr \<noteq> Inl (NotOrdered i row)"
    by (simp add: bidirectional_bag_filling_def verify_ordered_ascends[OF assms] Let_def)
qed

theorem ordering_violation_reported_witness:
  "wf_matrix (fst (matrix_from (InList [RowList [7, 4, 1], RowList [6, 0, 3]]))) \<and>
   list_ex ascends (self_v (fst (matrix_from (InList [RowList [7, 4, 1], RowList [6, 0, 3]])))) \<and>
   bidirectional_bag_filling (InList [RowList [7, 4, 1], RowList [6, 0, 3]]) [1, 1]
     = Inl (NotOrdered 1 [6, 0, 3]) \<and>
   wf_matrix (fst (matrix_from (InList [RowList [7, 4, 1], RowList [6, 3, 0]]))) \<and>
   \<not> list_ex ascends (self_v (fst (matrix_from (InList [RowList [7, 4, 1], RowList [6, 3, 0]])))) \<and>
   bidirectional_bag_filling (InList [RowList [7, 4, 1], RowList [6, 3, 0]]) [1, 1]
     \<noteq> Inl (NotOrdered 1 [6, 3, 0])"
proof -
  have wf1: "wf_matrix (fst (matrix_from (InList [RowList [7, 4, 1], RowList [6, 0, 3]])))"
    by (simp add: wf_matrix_def rectangular_def ValuationMatrix_init_def np_array_def array_of_lists_def Let_def)
  have wf2: "wf_matrix (fst (matrix_from (InList [RowList [7, 4, 1], RowList [6, 3, 0]])))"
    by (simp add: wf_matrix_def rectangular_def ValuationMatrix_init_def np_array_def array_of_lists_def Let_def)
  have a1: "list_ex ascends (self_v (fst (matrix_from (InList [RowList [7, 4, 1], RowList [6, 0, 3]]))))"
    by (simp add: ascends_def ValuationMatrix_init_def np_array_def array_of_lists_def Let_def)
  have a2: "\<not> list_ex ascends (self_v (fst (matrix_from (InList [RowList [7, 4, 1], RowList [6, 3, 0]]))))"
    by (simp add: ascends_def ValuationMatrix_init_def np_array_def array_of_lists_def Let_def)
  have r1: "bidirectional_bag_filling (InList [RowList [7, 4, 1], RowList [6, 0, 3]]) [1, 1]
     = Inl (NotOrdered 1 [6, 0, 3])"
    by code_simp
  from ordering_violation_reported[OF wf2, of "[1, 1]"] a2
  have r2: "bidirectional_bag_filling (InList [RowList [7, 4, 1], RowList [6, 3, 0]]) [1, 1]
     \<noteq> Inl (NotOrdered 1 [6, 3, 0])"
    by blast
  from wf1 wf2 a1 a2 r1 r2 show ?thesis by blast
qed

subsection \<open>The number of thresholds\<close>

text \<open>
  Claim C3, as the code has it. The ordering check comes first. For an ordered matrix,
  a threshold list whose length differs from the number of agents ends the call with
  the error that names both counts, and no allocation is built (the result is the
  error). That error is not raised when the lengths match, nor when the matrix is not
  ordered: the ordering error is raised then, whatever the thresholds.
\<close>

theorem count_mismatch_reported:
  assumes "wf_matrix (fst (matrix_from inp))"
  shows "(\<not> list_ex ascends (self_v (fst (matrix_from inp))) \<and>
          length thr \<noteq> num_of_agents (fst (matrix_from inp)) \<longrightarrow>
            bidirectional_bag_filling inp thr =
              Inl (CountMismatch (num_of_agents (fst (matrix_from inp))) (length thr))) \<and>
         (list_ex ascends (self_v (fst (matrix_from inp))) \<or>
          length thr = num_of_agents (fst (matrix_from inp)) \<longrightarrow>
            (\<forall>n k. bidirectional_bag_filling inp thr \<noteq> Inl (CountMismatch n k)))"
proof -
  let ?m = "fst (matrix_from inp)"
  let ?f = "find (\<lambda>i. ascends (self_v ?m ! i)) [0..<length (self_v ?m)]"
  have ordered: "\<not> list_ex ascends (self_v ?m) \<Longrightarrow> verify_ordered ?m = Inr ()"
    using find_ascends_None[of "self_v ?m"] by (simp add: verify_ordered_ascends[OF assms])
  have unordered: "list_ex ascends (self_v ?m) \<Longrightarrow> \<exists>i row. verify_ordered ?m = Inl (NotOrdered i row)"
    using find_ascends_None[of "self_v ?m"]
    by (cases ?f) (auto simp: verify_ordered_ascends[OF assms])
  show ?thesis
    using ordered unordered
    by (cases "list_ex ascends (self_v ?m)")
       (auto simp: bidirectional_bag_filling_def Let_def split: sum.splits)
qed

theorem count_mismatch_reported_witness:
  "wf_matrix (fst (matrix_from (InArray [[7, 4, 1], [6, 3, 0]]))) \<and>
   \<not> list_ex ascends (self_v (fst (matrix_from (InArray [[7, 4, 1], [6, 3, 0]])))) \<and>
   length [5::int] \<noteq> num_of_agents (fst (matrix_from (InArray [[7, 4, 1], [6, 3, 0]]))) \<and>
   bidirectional_bag_filling (InArray [[7, 4, 1], [6, 3, 0]]) [5] = Inl (CountMismatch 2 1)"
proof -
  have wf: "wf_matrix (fst (matrix_from (InArray [[7, 4, 1], [6, 3, 0]])))"
    by (simp add: wf_matrix_def rectangular_def ValuationMatrix_init_def array2_def)
  have o: "\<not> list_ex ascends (self_v (fst (matrix_from (InArray [[7, 4, 1], [6, 3, 0]]))))"
    by (simp add: ascends_def ValuationMatrix_init_def array2_def)
  have n: "length [5::int] \<noteq> num_of_agents (fst (matrix_from (InArray [[7, 4, 1], [6, 3, 0]])))"
    by (simp add: ValuationMatrix_init_def array2_def)
  from count_mismatch_reported[OF wf, of "[5]"] o n
  have "bidirectional_bag_filling (InArray [[7, 4, 1], [6, 3, 0]]) [5] = Inl (CountMismatch 2 1)"
    by (simp add: ValuationMatrix_init_def array2_def)
  with wf o n show ?thesis by blast
qed

text \<open>
  The claim without the ordering hypothesis fails: one agent with the row \<open>[1, 2]\<close> and
  no threshold. The lengths differ, and the error raised is the ordering error.
\<close>

theorem count_mismatch_counterexample:
  "length ([] :: int list) \<noteq> num_of_agents (fst (matrix_from (InArray [[1, 2]]))) \<and>
   bidirectional_bag_filling (InArray [[1, 2]]) [] = Inl (NotOrdered 0 [1, 2])"
  by (simp add: bidirectional_bag_filling_def verify_ordered_def agents_def
      ValuationMatrix_init_def array2_def row_has_ascent_def Let_def)

section \<open>Normalization\<close>












section \<open>Properties of matrix_from\<close>

lemma convert_loop_append:
  "convert_loop (is @ js) inp = convert_loop js (convert_loop is inp)"
  by (induction "is" arbitrary: inp) auto

lemma convert_loop_prefix:
  "convert_loop [0..<length xs] (xs @ ys) = map convert_element xs @ ys"
proof (induction xs arbitrary: ys rule: rev_induct)
  case Nil
  then show ?case by simp
next
  case (snoc x xs)
  have "convert_loop [0..<length (xs @ [x])] ((xs @ [x]) @ ys)
      = convert_loop [length xs] (convert_loop [0..<length xs] (xs @ (x # ys)))"
    by (simp add: convert_loop_append)
  also have "\<dots> = convert_loop [length xs] (map convert_element xs @ x # ys)"
    by (simp add: snoc.IH)
  also have "\<dots> = map convert_element (xs @ [x]) @ ys"
    using list_update_length[of "map convert_element xs" x ys]
    by (cases x) (simp_all add: nth_append)
  finally show ?case .
qed

lemma convert_loop_map: "convert_loop [0..<length l] l = map convert_element l"
  using convert_loop_prefix[of l "[]"] by simp

lemma convert_loop_all_lists: "\<not> list_ex is_dict (convert_loop [0..<length l] l)"
proof -
  have "\<not> is_dict (convert_element e)" for e by (cases e) auto
  then show ?thesis by (simp add: convert_loop_map list_ex_iff)
qed

lemma convert_element_id: "\<not> is_dict e \<Longrightarrow> convert_element e = e"
  by (cases e) auto

lemma map_convert_element_id:
  "\<not> list_ex is_dict l \<Longrightarrow> map convert_element l = l"
  by (induction l) (auto simp: convert_element_id)

lemma map_convert_element_changes:
  "list_ex is_dict l \<Longrightarrow> map convert_element l \<noteq> l"
proof (induction l)
  case Nil
  then show ?case by simp
next
  case (Cons e l)
  then show ?case by (cases e) auto
qed












text \<open>
  Claim C10. \<open>matrix_from\<close> writes to a list argument: after the call every element of
  the caller's list that was a dict is the list of that dict's values, so a list with a
  dict element is changed by the call, and a list with no dict element is left as it was.
\<close>

theorem matrix_from_mutates_list:
  "snd (matrix_from (InList l)) = InList (map convert_element l) \<and>
   (list_ex is_dict l \<longrightarrow> snd (matrix_from (InList l)) \<noteq> InList l) \<and>
   (\<not> list_ex is_dict l \<longrightarrow> snd (matrix_from (InList l)) = InList l)"
  by (simp add: Let_def convert_loop_map map_convert_element_id map_convert_element_changes)

theorem matrix_from_mutates_list_witness:
  "list_ex is_dict [RowDict [(''x'', 1), (''y'', 2)], RowList [3, 4]] \<and>
   snd (matrix_from (InList [RowDict [(''x'', 1), (''y'', 2)], RowList [3, 4]]))
     = InList [RowList [1, 2], RowList [3, 4]] \<and>
   snd (matrix_from (InList [RowDict [(''x'', 1), (''y'', 2)], RowList [3, 4]]))
     \<noteq> InList [RowDict [(''x'', 1), (''y'', 2)], RowList [3, 4]] \<and>
   \<not> list_ex is_dict [RowList [1, 2], RowList [3, 4]] \<and>
   snd (matrix_from (InList [RowList [1, 2], RowList [3, 4]]))
     = InList [RowList [1, 2], RowList [3, 4]]"
  using matrix_from_mutates_list[of "[RowDict [(''x'', 1), (''y'', 2)], RowList [3, 4]]"]
    matrix_from_mutates_list[of "[RowList [1, 2], RowList [3, 4]]"]
  by (simp add: dict_values_def)

section \<open>Properties of the printed form of an agent\<close>

lemma decimal_value_snoc:
  "decimal_value (s @ [c]) = 10 * decimal_value s + digit_value c"
  by (simp add: decimal_value_def)

lemma digit_value_digit_char: "d < 10 \<Longrightarrow> digit_value (digit_char d) = d"
proof -
  assume "d < 10"
  have "list_all (\<lambda>d. digit_value (digit_char d) = d) [0..<10]"
    by code_simp
  with \<open>d < 10\<close> show ?thesis
    by (simp add: list_all_iff)
qed

lemma decimal_value_str_nat: "decimal_value (str_nat n) = n"
proof (induction n rule: str_nat.induct)
  case (1 n)
  show ?case
  proof (cases "n < 10")
    case True
    then have "str_nat n = [digit_char n]"
      by (subst str_nat.simps) simp
    with True show ?thesis
      by (simp add: digit_value_digit_char decimal_value_def)
  next
    case False
    then have "decimal_value (str_nat n) = 10 * (n div 10) + n mod 10"
      using "1.IH" by (subst str_nat.simps) (simp add: decimal_value_snoc digit_value_digit_char)
    then show ?thesis by simp
  qed
qed

text \<open>
  Claim C9. The printed form of an agent tells a single agent from duplicated ones. With
  duplicity 1 it reads "<name> is an agent with a <valuation>"; with duplicity greater
  than 1 it reads "<name> are <duplicity> agents with a <valuation>", the duplicity in
  decimal digits; and the two forms of agents of the same name differ.
\<close>

theorem repr_singular_or_duplicated:
  "(duplicity a = 1 \<longrightarrow>
      repr a = name a @ '' is an agent with a '' @ valuation_repr a) \<and>
   (1 < duplicity a \<longrightarrow>
      repr a = name a @ '' are '' @ str_int (duplicity a) @ '' agents with a ''
                 @ valuation_repr a \<and>
      int (decimal_value (str_int (duplicity a))) = duplicity a) \<and>
   (duplicity a = 1 \<and> 1 < duplicity b \<and> name a = name b \<longrightarrow> repr a \<noteq> repr b)"
proof (intro conjI impI)
  assume "duplicity a = 1"
  then show "repr a = name a @ '' is an agent with a '' @ valuation_repr a"
    by (simp add: repr_def)
next
  assume "1 < duplicity a"
  then show "repr a = name a @ '' are '' @ str_int (duplicity a) @ '' agents with a ''
                 @ valuation_repr a"
    by (simp add: repr_def)
next
  assume "1 < duplicity a"
  then show "int (decimal_value (str_int (duplicity a))) = duplicity a"
    by (simp add: str_int_def decimal_value_str_nat)
next
  assume "duplicity a = 1 \<and> 1 < duplicity b \<and> name a = name b"
  then show "repr a \<noteq> repr b"
    by (simp add: repr_def)
qed

theorem repr_singular_or_duplicated_witness:
  "duplicity \<lparr> valuation_repr = ''Binary valuation who wants x.'', name_attr = Some ''Alice'',
       duplicity = 1 \<rparr> = 1 \<and>
   repr \<lparr> valuation_repr = ''Binary valuation who wants x.'', name_attr = Some ''Alice'',
       duplicity = 1 \<rparr> = ''Alice is an agent with a Binary valuation who wants x.'' \<and>
   1 < duplicity \<lparr> valuation_repr = ''Binary valuation who wants x.'', name_attr = None,
       duplicity = 12 \<rparr> \<and>
   repr \<lparr> valuation_repr = ''Binary valuation who wants x.'', name_attr = None,
       duplicity = 12 \<rparr> = ''Anonymous are 12 agents with a Binary valuation who wants x.''"
proof -
  have s: "str_int 12 = ''12''" by code_simp
  show ?thesis
    using repr_singular_or_duplicated[of "\<lparr> valuation_repr = ''Binary valuation who wants x.'',
        name_attr = Some ''Alice'', duplicity = 1 \<rparr>"]
      repr_singular_or_duplicated[of "\<lparr> valuation_repr = ''Binary valuation who wants x.'',
        name_attr = None, duplicity = 12 \<rparr>"]
    by (simp add: name_def s)
qed

section \<open>The bag-filling scenario\<close>

text \<open>
  Claim C2. On three agents with the row \<open>[97,96,90,12,3,2,1,1,1]\<close>, the thresholds
  \<open>[100,100,100]\<close> give the bundles \<open>{0,6,7,8}\<close>, \<open>{1,4,5}\<close> and \<open>{2,3}\<close>, of values 100,
  101 and 102. The thresholds \<open>[101,101,101]\<close> give \<open>{0,5,6,7,8}\<close> and \<open>{1,3,4}\<close> to the
  first two agents and no bundle, of value 0, to the third: the loop ends with object 2
  and agent 2 remaining, since no remaining agent can be satisfied.
\<close>

theorem bag_filling_scenario:
  "(\<exists>a. bidirectional_bag_filling (InMatrix scenario_matrix) [100, 100, 100] = Inr a \<and>
        map (map_option set) (alloc_bundles a) = [Some {0, 6, 7, 8}, Some {1, 4, 5}, Some {2, 3}] \<and>
        alloc_values a = [Inr 100, Inr 101, Inr 102]) \<and>
   (\<exists>a. bidirectional_bag_filling (InMatrix scenario_matrix) [101, 101, 101] = Inr a \<and>
        map (map_option set) (alloc_bundles a) = [Some {0, 5, 6, 7, 8}, Some {1, 3, 4}, None] \<and>
        alloc_values a = [Inr 102, Inr 111, Inr 0]) \<and>
   remaining_objects (scenario_loop [101, 101, 101]) = [2] \<and>
   remaining_agents (scenario_loop [101, 101, 101]) = [2]"
proof -
  let ?a = "\<lparr> alloc_matrix = scenario_matrix,
              alloc_bundles = [Some [0, 8, 7, 6], Some [1, 5, 4], Some [2, 3]] \<rparr>"
  let ?b = "\<lparr> alloc_matrix = scenario_matrix,
              alloc_bundles = [Some [0, 8, 7, 6, 5], Some [1, 4, 3], None] \<rparr>"
  have a1: "bidirectional_bag_filling (InMatrix scenario_matrix) [100, 100, 100] = Inr ?a"
    by code_simp
  have a2: "map (map_option set) (alloc_bundles ?a) = [Some {0, 6, 7, 8}, Some {1, 4, 5}, Some {2, 3}]"
    by auto
  have a3: "alloc_values ?a = [Inr 100, Inr 101, Inr 102]"
    by code_simp
  have b1: "bidirectional_bag_filling (InMatrix scenario_matrix) [101, 101, 101] = Inr ?b"
    by code_simp
  have b2: "map (map_option set) (alloc_bundles ?b) = [Some {0, 5, 6, 7, 8}, Some {1, 3, 4}, None]"
    by auto
  have b3: "alloc_values ?b = [Inr 102, Inr 111, Inr 0]"
    by code_simp
  have c1: "remaining_objects (scenario_loop [101, 101, 101]) = [2]"
    by code_simp
  have c2: "remaining_agents (scenario_loop [101, 101, 101]) = [2]"
    by code_simp
  have A: "\<exists>a. bidirectional_bag_filling (InMatrix scenario_matrix) [100, 100, 100] = Inr a \<and>
        map (map_option set) (alloc_bundles a) = [Some {0, 6, 7, 8}, Some {1, 4, 5}, Some {2, 3}] \<and>
        alloc_values a = [Inr 100, Inr 101, Inr 102]"
    by (rule exI[of _ ?a]) (intro conjI a1 a2 a3)
  have B: "\<exists>a. bidirectional_bag_filling (InMatrix scenario_matrix) [101, 101, 101] = Inr a \<and>
        map (map_option set) (alloc_bundles a) = [Some {0, 5, 6, 7, 8}, Some {1, 3, 4}, None] \<and>
        alloc_values a = [Inr 102, Inr 111, Inr 0]"
    by (rule exI[of _ ?b]) (intro conjI b1 b2 b3)
  show ?thesis
    by (intro conjI A B c1 c2)
qed

section \<open>What the operations of a matrix leave behind\<close>



lemma keeps_arrays_refl: "keeps_arrays st st"
  by (simp add: keeps_arrays_def)






end
